theory Spec2Isabelle
  imports Complex_Main
begin

section \<open>Python dictionaries as insertion-ordered association lists\<close>

text \<open>
  The program keeps its working data in Python dictionaries, which iterate in insertion
  order. A dictionary is an association list with one entry per key; \<open>dict_get\<close> is
  \<^verbatim>\<open>d.get(k)\<close>, \<open>dict_set\<close> is \<^verbatim>\<open>d[k] = v\<close> (an existing key keeps its
  position, a new key goes to the end), \<open>dict_del\<close> is \<^verbatim>\<open>del d[k]\<close>.
\<close>

fun dict_get :: "('k \<times> 'v) list \<Rightarrow> 'k \<Rightarrow> 'v option" where
  "dict_get [] k = None"
| "dict_get ((k', v) # d) k = (if k' = k then Some v else dict_get d k)"

fun dict_set :: "'k \<Rightarrow> 'v \<Rightarrow> ('k \<times> 'v) list \<Rightarrow> ('k \<times> 'v) list" where
  "dict_set k v [] = [(k, v)]"
| "dict_set k v ((k', v') # d) = (if k' = k then (k, v) # d else (k', v') # dict_set k v d)"

definition dict_del :: "'k \<Rightarrow> ('k \<times> 'v) list \<Rightarrow> ('k \<times> 'v) list" where
  "dict_del k d = filter (\<lambda>kv. fst kv \<noteq> k) d"

definition dict_keys :: "('k \<times> 'v) list \<Rightarrow> 'k list" where
  "dict_keys d = map fst d"

definition dict_values :: "('k \<times> 'v) list \<Rightarrow> 'v list" where
  "dict_values d = map snd d"

text \<open>\<^verbatim>\<open>sep.join(xs)\<close> on strings.\<close>

fun join :: "string \<Rightarrow> string list \<Rightarrow> string" where
  "join sep [] = []"
| "join sep [x] = x"
| "join sep (x # y # xs) = x @ sep @ join sep (y # xs)"

datatype error = KeyError | IndexError | NetworkXError

section \<open>The substructure store (\<^verbatim>\<open>SubstructureDb\<close>)\<close>

text \<open>
  The three tables of \<^verbatim>\<open>create_compound_database\<close>, a row as a record with the
  table's columns in order. Masses are exact rational numbers (the values the decimal
  literals of the program denote); the binary rounding of IEEE doubles is not part of
  the model. The \<^verbatim>\<open>lib\<close> column holds the pickled fragment, of an arbitrary type
  \<open>'b\<close> of byte strings; \<^verbatim>\<open>valence_atoms\<close> holds the text of the degree dictionary,
  kept here as the dictionary itself. A table is the list of its rows and the result of
  a query is a list too; no statement of the program asks for an order, and no property
  below depends on one, except where the program sorts the result itself.
\<close>

record compound =
  cpd_hmdbid :: string
  cpd_exact_mass :: rat
  cpd_formula :: string
  cpd_C :: int
  cpd_H :: int
  cpd_N :: int
  cpd_O :: int
  cpd_P :: int
  cpd_S :: int
  cpd_smiles :: string
  cpd_smiles_rdkit :: string
  cpd_smiles_rdkit_kek :: string

record 'b substructure =
  sub_smiles :: string
  sub_heavy_atoms :: int
  sub_length :: int
  sub_exact_mass__1 :: rat
  sub_exact_mass__0_1 :: rat
  sub_exact_mass__0_01 :: rat
  sub_exact_mass__0_001 :: rat
  sub_exact_mass__0_0001 :: rat
  sub_exact_mass :: rat
  sub_count :: int
  sub_C :: int
  sub_H :: int
  sub_N :: int
  sub_O :: int
  sub_P :: int
  sub_S :: int
  sub_valence :: int
  sub_valence_atoms :: "(nat \<times> nat) list"
  sub_atoms_available :: int
  sub_lib :: 'b

record 'b db =
  compounds :: "compound list"
  substructures :: "'b substructure list"
  hmdbid_substructures :: "(string \<times> string) list"

text \<open>
  The \<^verbatim>\<open>accuracy\<close> argument is the suffix of a column name
  (\<^verbatim>\<open>exact_mass__{}\<close>): one of the five mass tiers.
\<close>

datatype accuracy = Acc_1 | Acc_0_1 | Acc_0_01 | Acc_0_001 | Acc_0_0001

fun exact_mass_at :: "accuracy \<Rightarrow> 'b substructure \<Rightarrow> rat" where
  "exact_mass_at Acc_1 r = sub_exact_mass__1 r"
| "exact_mass_at Acc_0_1 r = sub_exact_mass__0_1 r"
| "exact_mass_at Acc_0_01 r = sub_exact_mass__0_01 r"
| "exact_mass_at Acc_0_001 r = sub_exact_mass__0_001 r"
| "exact_mass_at Acc_0_0001 r = sub_exact_mass__0_0001 r"

subsection \<open>\<^verbatim>\<open>select_compounds\<close>\<close>

text \<open>
  \<^verbatim>\<open>" WHERE HMDBID in ('%s')" % (", ".join(map(str, cpds)))\<close>: the identifiers are
  joined with a comma and a blank and the whole text is put between one pair of quotes,
  so the \<^verbatim>\<open>in\<close> list has a single string literal. A quote inside the joined text
  would end the literal early; the statement is then another one and the model gives no
  result for it (\<open>None\<close>).
\<close>

definition select_compounds :: "'b db \<Rightarrow> string list \<Rightarrow> compound list option" where
  "select_compounds d cpds =
     (if length cpds > 0 then
        (let lit = join '', '' cpds in
         if CHR 0x27 \<in> set lit then None
         else Some (remdups (filter (\<lambda>r. cpd_hmdbid r = lit) (compounds d))))
      else Some (remdups (compounds d)))"

subsection \<open>\<^verbatim>\<open>select_mass_values\<close>\<close>

text \<open>
  \<open>masses\<close> is \<open>None\<close> when the argument is not a list. The filter on the candidate
  masses names the column \<^verbatim>\<open>exact_mass__1\<close>, whatever \<^verbatim>\<open>accuracy\<close> is.
\<close>

definition select_mass_values ::
  "'b db \<Rightarrow> accuracy \<Rightarrow> int list \<Rightarrow> int \<Rightarrow> rat list option \<Rightarrow> rat list" where
  "select_mass_values d acc heavy_atoms max_valence masses =
     (let filter_mass = (\<lambda>r. case masses of
                                None \<Rightarrow> True
                              | Some ms \<Rightarrow> (if length ms > 0 then sub_exact_mass__1 r \<in> set ms else True));
          records = remdups (map (exact_mass_at acc)
                      (filter (\<lambda>r. sub_valence r \<le> max_valence
                                    \<and> sub_heavy_atoms r \<in> set heavy_atoms
                                    \<and> filter_mass r) (substructures d)))
      in sort records)"

subsection \<open>\<^verbatim>\<open>select_ecs\<close>\<close>

type_synonym ec = "int \<times> int \<times> int \<times> int \<times> int \<times> int"

definition ec_of :: "'b substructure \<Rightarrow> ec" where
  "ec_of r = (sub_C r, sub_H r, sub_N r, sub_O r, sub_P r, sub_S r)"



subsection \<open>\<^verbatim>\<open>select_sub_structures\<close>\<close>




section \<open>Fragment extraction (\<^verbatim>\<open>get_substructure\<close>)\<close>

text \<open>
  A molecule of the toolkit, as far as the program reads it: the atoms' symbols by atom
  index and the bonds by bond index, a bond being its begin atom, its end atom and its
  type as a double (1.0 single, 1.5 aromatic, 2.0 double).
\<close>

record mol =
  atoms :: "string list"
  bonds :: "(nat \<times> nat \<times> rat) list"

text \<open>
  The bond end points of a toolkit molecule are atoms of the molecule. Outside that
  range \<open>GetSymbol\<close> reads no symbol (the empty text), which is not the wildcard.
\<close>

definition GetSymbol :: "mol \<Rightarrow> nat \<Rightarrow> string" where
  "GetSymbol m i = (if i < length (atoms m) then atoms m ! i else [])"

definition GetNeighbors :: "mol \<Rightarrow> nat \<Rightarrow> nat list" where
  "GetNeighbors m i =
     concat (map (\<lambda>(a1, a2, t). if a1 = i then [a2] else if a2 = i then [a1] else []) (bonds m))"

definition GetBondWithIdx :: "mol \<Rightarrow> nat \<Rightarrow> error + (nat \<times> nat \<times> rat)" where
  "GetBondWithIdx m bIdx = (if bIdx < length (bonds m) then Inr (bonds m ! bIdx) else Inl IndexError)"

text \<open>
  \<^verbatim>\<open>ReplaceAtom(idx, Chem.Atom("*"))\<close> changes the symbol and keeps the bonds.
  \<^verbatim>\<open>RemoveAtom(idx)\<close> deletes the atom with its bonds; the atoms and bond end points
  above it move down by one, which is why the program removes in reversed order.
\<close>

definition ReplaceAtom :: "nat \<Rightarrow> string \<Rightarrow> mol \<Rightarrow> mol" where
  "ReplaceAtom i s m = m\<lparr>atoms := (atoms m)[i := s]\<rparr>"

definition RemoveAtom :: "nat \<Rightarrow> mol \<Rightarrow> mol" where
  "RemoveAtom i m =
     \<lparr>atoms = take i (atoms m) @ drop (Suc i) (atoms m),
      bonds = map (\<lambda>(a1, a2, t). (if a1 > i then a1 - 1 else a1, if a2 > i then a2 - 1 else a2, t))
                (filter (\<lambda>(a1, a2, t). a1 \<noteq> i \<and> a2 \<noteq> i) (bonds m))\<rparr>"

text \<open>The atoms on the selected bonds, each once, in the order met.\<close>

fun atom_idxs_of :: "mol \<Rightarrow> nat list \<Rightarrow> nat list \<Rightarrow> error + nat list" where
  "atom_idxs_of m [] atom_idxs_subgraph = Inr atom_idxs_subgraph"
| "atom_idxs_of m (bIdx # rest) atom_idxs_subgraph =
     (case GetBondWithIdx m bIdx of
        Inl e \<Rightarrow> Inl e
      | Inr (a1, a2, t) \<Rightarrow>
          (let s1 = (if a1 \<notin> set atom_idxs_subgraph then atom_idxs_subgraph @ [a1]
                     else atom_idxs_subgraph);
               s2 = (if a2 \<notin> set s1 then s1 @ [a2] else s1)
           in atom_idxs_of m rest s2))"

definition atoms_to_dummy_of :: "mol \<Rightarrow> nat list \<Rightarrow> nat list" where
  "atoms_to_dummy_of m atom_idxs_subgraph =
     concat (map (\<lambda>idx. filter (\<lambda>a. a \<notin> set atom_idxs_subgraph) (GetNeighbors m idx))
                 atom_idxs_subgraph)"

definition replace_dummies :: "nat list \<Rightarrow> mol \<Rightarrow> mol" where
  "replace_dummies atoms_to_dummy m =
     fold (\<lambda>i e. if i \<in> set atoms_to_dummy then ReplaceAtom i ''*'' e else e)
          (rev [0 ..< length (atoms m)]) m"

definition remove_outside :: "nat list \<Rightarrow> mol \<Rightarrow> mol" where
  "remove_outside atom_idxs_subgraph m =
     fold (\<lambda>i e. if i \<notin> set atom_idxs_subgraph \<and> GetSymbol m i \<noteq> ''*'' then RemoveAtom i e else e)
          (rev [0 ..< length (atoms m)]) m"

definition dummies_of :: "mol \<Rightarrow> nat list" where
  "dummies_of m = filter (\<lambda>i. GetSymbol m i = ''*'') [0 ..< length (atoms m)]"

text \<open>
  \<^verbatim>\<open>degree_atoms\<close>: for every dummy, every neighbour that is not a dummy counts one.
\<close>

definition incr :: "nat \<Rightarrow> (nat \<times> nat) list \<Rightarrow> (nat \<times> nat) list" where
  "incr k d = (case dict_get d k of None \<Rightarrow> dict_set k 1 d | Some c \<Rightarrow> dict_set k (c + 1) d)"

definition degree_atoms_of :: "mol \<Rightarrow> (nat \<times> nat) list" where
  "degree_atoms_of m =
     fold (\<lambda>i d. if i \<in> set (dummies_of m)
                  then fold (\<lambda>n d'. if GetSymbol m n = ''*'' then d' else incr n d')
                            (GetNeighbors m i) d
                  else d)
          [0 ..< length (atoms m)] []"

text \<open>
  \<^verbatim>\<open>bond_types\<close>: a bond that begins at a dummy records its type under its end atom;
  otherwise a bond that ends at a dummy records its type under its begin atom.
\<close>

definition append_to :: "nat \<Rightarrow> rat \<Rightarrow> (nat \<times> rat list) list \<Rightarrow> (nat \<times> rat list) list" where
  "append_to k v d = (case dict_get d k of None \<Rightarrow> dict_set k [v] d | Some vs \<Rightarrow> dict_set k (vs @ [v]) d)"

definition bond_types_of :: "mol \<Rightarrow> (nat \<times> rat list) list" where
  "bond_types_of m =
     fold (\<lambda>(a1, a2, t) d.
             if GetSymbol m a1 = ''*'' then append_to a2 t d
             else if GetSymbol m a2 = ''*'' then append_to a1 t d
             else d)
          (bonds m) []"

text \<open>
  The toolkit's operations that are used as they are: \<open>Kekulize\<close> gives the kekulized
  molecule, or \<open>None\<close> where the toolkit raises; \<open>MolToSmiles\<close> is the canonical
  kekulized text; \<open>AddHs\<close> adds the hydrogen atoms; \<open>FindAllSubgraphs\<close> is
  \<^verbatim>\<open>get_sgs\<close>, the bond subsets of a molecule; \<open>dumps\<close> is \<^verbatim>\<open>pickle.dumps\<close>.
\<close>

record lib =
  lib_smiles :: string
  lib_mol :: mol
  lib_bond_types :: "(nat \<times> rat list) list"
  lib_degree_atoms :: "(nat \<times> nat) list"
  lib_valence :: nat
  lib_atoms_available :: nat
  lib_dummies :: "nat list"

record 'b toolkit =
  Kekulize :: "mol \<Rightarrow> mol option"
  MolToSmiles :: "mol \<Rightarrow> string"
  AddHs :: "mol \<Rightarrow> mol"
  FindAllSubgraphs :: "mol \<Rightarrow> nat \<Rightarrow> nat \<Rightarrow> nat list list list"
  dumps :: "lib \<Rightarrow> 'b"

definition extract_mol :: "mol \<Rightarrow> nat list \<Rightarrow> error + mol" where
  "extract_mol m idxs_edges_subgraph =
     (case atom_idxs_of m idxs_edges_subgraph [] of
        Inl e \<Rightarrow> Inl e
      | Inr atom_idxs_subgraph \<Rightarrow>
          (let atoms_to_dummy = atoms_to_dummy_of m atom_idxs_subgraph;
               m1 = replace_dummies atoms_to_dummy m
           in Inr (remove_outside atom_idxs_subgraph m1)))"

definition get_substructure :: "'b toolkit \<Rightarrow> mol \<Rightarrow> nat list \<Rightarrow> error + lib option" where
  "get_substructure tk m idxs_edges_subgraph =
     (case extract_mol m idxs_edges_subgraph of
        Inl e \<Rightarrow> Inl e
      | Inr mol_out \<Rightarrow>
          (let dummies = dummies_of mol_out;
               degree_atoms = degree_atoms_of mol_out;
               bond_types = bond_types_of mol_out
           in case Kekulize tk mol_out of
                None \<Rightarrow> Inr None
              | Some kek \<Rightarrow>
                  Inr (Some \<lparr>lib_smiles = MolToSmiles tk kek,
                             lib_mol = kek,
                             lib_bond_types = bond_types,
                             lib_degree_atoms = degree_atoms,
                             lib_valence = sum_list (dict_values degree_atoms),
                             lib_atoms_available = length (dict_keys degree_atoms),
                             lib_dummies = dummies\<rparr>)))"

section \<open>Populating the store (\<^verbatim>\<open>update_substructure_database\<close>)\<close>

text \<open>
  \<^verbatim>\<open>round(x, ndigits)\<close> on a number with an exact decimal value: the nearest multiple
  of \<open>10 ^ -ndigits\<close>, a tie going to the even neighbour.
\<close>

definition round_half_even :: "rat \<Rightarrow> int" where
  "round_half_even q =
     (let f = \<lfloor>q\<rfloor>; r = q - of_int f
      in if r < 1 / 2 then f else if r > 1 / 2 then f + 1 else if even f then f else f + 1)"

definition py_round :: "rat \<Rightarrow> nat \<Rightarrow> rat" where
  "py_round x ndigits = of_int (round_half_even (x * 10 ^ ndigits)) / 10 ^ ndigits"

text \<open>
  \<^verbatim>\<open>get_elements\<close> counts the symbols of the molecule with its hydrogens;
  \<^verbatim>\<open>calculate_exact_mass\<close> adds their masses, the wildcard left out. A symbol outside
  the table is a \<^verbatim>\<open>KeyError\<close>.
\<close>

definition elements_init :: "(string \<times> nat) list" where
  "elements_init = [(''C'', 0), (''H'', 0), (''N'', 0), (''O'', 0), (''P'', 0), (''S'', 0), (''*'', 0)]"

fun count_elements :: "string list \<Rightarrow> (string \<times> nat) list \<Rightarrow> error + (string \<times> nat) list" where
  "count_elements [] elements = Inr elements"
| "count_elements (s # ss) elements =
     (case dict_get elements s of
        None \<Rightarrow> Inl KeyError
      | Some c \<Rightarrow> count_elements ss (dict_set s (c + 1) elements))"

definition get_elements :: "'b toolkit \<Rightarrow> mol \<Rightarrow> error + (string \<times> nat) list" where
  "get_elements tk m = count_elements (atoms (AddHs tk m)) elements_init"

definition exact_mass_elements :: "(string \<times> rat) list" where
  "exact_mass_elements =
     [(''C'', 12), (''H'', 1007825 / 1000000), (''N'', 14003074 / 1000000),
      (''O'', 15994915 / 1000000), (''P'', 30973763 / 1000000), (''S'', 31972072 / 1000000),
      (''*'', - (1007825 / 1000000))]"

fun add_masses :: "string list \<Rightarrow> rat \<Rightarrow> error + rat" where
  "add_masses [] exact_mass = Inr exact_mass"
| "add_masses (s # ss) exact_mass =
     (if s \<noteq> ''*'' then
        (case dict_get exact_mass_elements s of
           None \<Rightarrow> Inl KeyError
         | Some w \<Rightarrow> add_masses ss (exact_mass + w))
      else add_masses ss exact_mass)"

definition calculate_exact_mass :: "'b toolkit \<Rightarrow> mol \<Rightarrow> error + rat" where
  "calculate_exact_mass tk m = add_masses (atoms (AddHs tk m)) 0"

text \<open>
  \<^verbatim>\<open>sub_smi_dict\<close>, the row handed to \<^verbatim>\<open>INSERT OR IGNORE INTO substructures\<close>. The
  element counts are read from \<open>els\<close>, whose seven keys \<^verbatim>\<open>get_elements\<close> always
  returns. \<^verbatim>\<open>update_mfrontier_database\<close> builds the same row.
\<close>

definition els_at :: "(string \<times> nat) list \<Rightarrow> string \<Rightarrow> int" where
  "els_at els a = (case dict_get els a of None \<Rightarrow> 0 | Some c \<Rightarrow> int c)"

definition sub_smi_dict ::
  "string \<Rightarrow> rat \<Rightarrow> (string \<times> nat) list \<Rightarrow> lib \<Rightarrow> 'b \<Rightarrow> 'b substructure" where
  "sub_smi_dict smiles_rdkit_kek exact_mass els l pkl_lib =
     \<lparr>sub_smiles = smiles_rdkit_kek,
      sub_heavy_atoms = sum_list (map (\<lambda>a. els_at els a)
                          (filter (\<lambda>a. a \<noteq> ''H'' \<and> a \<noteq> ''*'') (dict_keys els))),
      sub_length = sum_list (map (\<lambda>a. els_at els a) (filter (\<lambda>a. a \<noteq> ''*'') (dict_keys els))),
      sub_exact_mass__1 = py_round exact_mass 0,
      sub_exact_mass__0_1 = py_round exact_mass 1,
      sub_exact_mass__0_01 = py_round exact_mass 2,
      sub_exact_mass__0_001 = py_round exact_mass 3,
      sub_exact_mass__0_0001 = py_round exact_mass 4,
      sub_exact_mass = exact_mass,
      sub_count = 0,
      sub_C = els_at els ''C'',
      sub_H = els_at els ''H'',
      sub_N = els_at els ''N'',
      sub_O = els_at els ''O'',
      sub_P = els_at els ''P'',
      sub_S = els_at els ''S'',
      sub_valence = int (lib_valence l),
      sub_valence_atoms = lib_degree_atoms l,
      sub_atoms_available = int (lib_atoms_available l),
      sub_lib = pkl_lib\<rparr>"

text \<open>\<^verbatim>\<open>INSERT OR IGNORE\<close>: a row whose primary key is in the table already is dropped.\<close>

definition insert_substructure :: "'b substructure \<Rightarrow> 'b db \<Rightarrow> 'b db" where
  "insert_substructure r d =
     (if sub_smiles r \<in> set (map sub_smiles (substructures d)) then d
      else d\<lparr>substructures := substructures d @ [r]\<rparr>)"

definition insert_hmdbid_substructure :: "string \<times> string \<Rightarrow> 'b db \<Rightarrow> 'b db" where
  "insert_hmdbid_substructure l d =
     (if l \<in> set (hmdbid_substructures d) then d
      else d\<lparr>hmdbid_substructures := hmdbid_substructures d @ [l]\<rparr>)"

definition insert_compound :: "compound \<Rightarrow> 'b db \<Rightarrow> 'b db" where
  "insert_compound r d =
     (if cpd_hmdbid r \<in> set (map cpd_hmdbid (compounds d)) then d
      else d\<lparr>compounds := compounds d @ [r]\<rparr>)"

text \<open>
  The body of the loop over the bond subsets of one record; \<open>record_dict\<close> is the
  compound's row with its molecule.
\<close>

definition add_edge_idxs :: "'b toolkit \<Rightarrow> compound \<times> mol \<Rightarrow> nat list \<Rightarrow> 'b db \<Rightarrow> error + 'b db" where
  "add_edge_idxs tk record_dict edge_idxs d =
     (case get_substructure tk (snd record_dict) edge_idxs of
        Inl e \<Rightarrow> Inl e
      | Inr None \<Rightarrow> Inr d
      | Inr (Some l) \<Rightarrow>
          (let smiles_rdkit_kek = MolToSmiles tk (lib_mol l) in
           case calculate_exact_mass tk (lib_mol l) of
             Inl e \<Rightarrow> Inl e
           | Inr exact_mass \<Rightarrow>
               (case get_elements tk (lib_mol l) of
                  Inl e \<Rightarrow> Inl e
                | Inr els \<Rightarrow>
                    Inr (insert_hmdbid_substructure (cpd_hmdbid (fst record_dict), smiles_rdkit_kek)
                          (insert_substructure
                             (sub_smi_dict smiles_rdkit_kek exact_mass els l (dumps tk l)) d)))))"




section \<open>The substructure network (\<^verbatim>\<open>generate_substructure_network\<close>)\<close>

text \<open>
  An undirected graph of the graph library, as the program uses it: the dictionary of
  the nodes with their \<^verbatim>\<open>weight\<close> attribute, if set, and for every node the
  dictionary of its neighbours with the \<^verbatim>\<open>weight\<close> attribute of the edge, if set. An
  edge is entered under both of its end points and its attributes are shared by the two
  entries.
\<close>

record graph =
  g_node :: "(string \<times> int option) list"
  g_adj :: "(string \<times> (string \<times> int option) list) list"

definition empty_graph :: graph where
  "empty_graph = \<lparr>g_node = [], g_adj = []\<rparr>"

definition adj_of :: "graph \<Rightarrow> string \<Rightarrow> (string \<times> int option) list" where
  "adj_of g n = (case dict_get (g_adj g) n of None \<Rightarrow> [] | Some nbrs \<Rightarrow> nbrs)"

definition add_node :: "string \<Rightarrow> int option \<Rightarrow> graph \<Rightarrow> graph" where
  "add_node n attr g =
     (case dict_get (g_node g) n of
        None \<Rightarrow> \<lparr>g_node = dict_set n attr (g_node g), g_adj = dict_set n [] (g_adj g)\<rparr>
      | Some old \<Rightarrow> (case attr of None \<Rightarrow> g | Some w \<Rightarrow> g\<lparr>g_node := dict_set n (Some w) (g_node g)\<rparr>))"

definition has_edge :: "graph \<Rightarrow> string \<Rightarrow> string \<Rightarrow> bool" where
  "has_edge g u v = (case dict_get (g_adj g) u of None \<Rightarrow> False | Some nbrs \<Rightarrow> v \<in> set (dict_keys nbrs))"

definition edge_weight :: "graph \<Rightarrow> string \<Rightarrow> string \<Rightarrow> int option" where
  "edge_weight g u v = (case dict_get (adj_of g u) v of None \<Rightarrow> None | Some w \<Rightarrow> w)"

definition set_edge :: "string \<Rightarrow> string \<Rightarrow> int option \<Rightarrow> graph \<Rightarrow> graph" where
  "set_edge u v datadict g =
     (let a1 = dict_set u (dict_set v datadict (adj_of g u)) (g_adj g);
          a2 = dict_set v (dict_set u datadict (case dict_get a1 v of None \<Rightarrow> [] | Some nbrs \<Rightarrow> nbrs)) a1
      in g\<lparr>g_adj := a2\<rparr>)"

definition add_edge :: "string \<Rightarrow> string \<Rightarrow> int option \<Rightarrow> graph \<Rightarrow> graph" where
  "add_edge u v attr g =
     (let g1 = add_node v None (add_node u None g);
          datadict = (case attr of None \<Rightarrow> edge_weight g1 u v | Some w \<Rightarrow> Some w)
      in set_edge u v datadict g1)"

text \<open>\<^verbatim>\<open>G[u][v]['weight'] += 1\<close>: a \<^verbatim>\<open>KeyError\<close> on an edge without a weight.\<close>

definition incr_weight :: "string \<Rightarrow> string \<Rightarrow> graph \<Rightarrow> error + graph" where
  "incr_weight u v g =
     (case dict_get (g_adj g) u of
        None \<Rightarrow> Inl KeyError
      | Some nbrs \<Rightarrow>
          (case dict_get nbrs v of
             None \<Rightarrow> Inl KeyError
           | Some None \<Rightarrow> Inl KeyError
           | Some (Some w) \<Rightarrow> Inr (set_edge u v (Some (w + 1)) g)))"

definition remove_node :: "string \<Rightarrow> graph \<Rightarrow> error + graph" where
  "remove_node n g =
     (case dict_get (g_adj g) n of
        None \<Rightarrow> Inl NetworkXError
      | Some nbrs \<Rightarrow>
          Inr \<lparr>g_node = dict_del n (g_node g),
               g_adj = dict_del n (map (\<lambda>(u, us). (u, dict_del n us)) (g_adj g))\<rparr>)"

definition remove_selfloop_edges :: "graph \<Rightarrow> graph" where
  "remove_selfloop_edges g = g\<lparr>g_adj := map (\<lambda>(u, us). (u, dict_del u us)) (g_adj g)\<rparr>"

definition isolates :: "graph \<Rightarrow> string list" where
  "isolates g = map fst (filter (\<lambda>(u, us). us = []) (g_adj g))"

definition remove_nodes_from :: "string list \<Rightarrow> graph \<Rightarrow> graph" where
  "remove_nodes_from ns g = fold (\<lambda>n g'. case remove_node n g' of Inl e \<Rightarrow> g' | Inr g'' \<Rightarrow> g'') ns g"

text \<open>
  \<^verbatim>\<open>filter_hmdbid_substructures\<close>: the tables \<^verbatim>\<open>unique_hmdbid\<close> and
  \<^verbatim>\<open>filtered_hmdbid_substructures\<close>, the latter with the number of links of every
  substructure that has at least \<^verbatim>\<open>min_node_weight\<close> of them.
\<close>

definition unique_hmdbid :: "'b db \<Rightarrow> string list" where
  "unique_hmdbid d = remdups (map cpd_hmdbid (compounds d))"

definition filtered_hmdbid_substructures :: "'b db \<Rightarrow> int \<Rightarrow> (string \<times> int) list" where
  "filtered_hmdbid_substructures d min_node_weight =
     filter (\<lambda>(s, c). c \<ge> min_node_weight)
       (map (\<lambda>s. (s, int (length (filter (\<lambda>l. snd l = s) (hmdbid_substructures d)))))
            (remdups (map snd (hmdbid_substructures d))))"

definition filtered_links :: "'b db \<Rightarrow> int \<Rightarrow> (string \<times> string) list" where
  "filtered_links d min_node_weight =
     filter (\<lambda>l. snd l \<in> set (map fst (filtered_hmdbid_substructures d min_node_weight)))
            (hmdbid_substructures d)"

text \<open>
  The step of both network constructions on one pair of nodes: the weight of an edge that is
  there goes up by one, an edge that is not there is added with weight 1.
\<close>

definition link_pair :: "string \<times> string \<Rightarrow> graph \<Rightarrow> error + graph" where
  "link_pair p g =
     (if has_edge g (fst p) (snd p) then incr_weight (fst p) (snd p) g
      else Inr (add_edge (fst p) (snd p) (Some 1) g))"

fun link_pairs :: "(string \<times> string) list \<Rightarrow> graph \<Rightarrow> error + graph" where
  "link_pairs [] g = Inr g"
| "link_pairs (p # ps) g = (case link_pair p g of Inl e \<Rightarrow> Inl e | Inr g' \<Rightarrow> link_pairs ps g')"

text \<open>
  \<^verbatim>\<open>extended_substructure_network\<close>. The two nested iterations of the removal run over
  the neighbours of the compound, \<^verbatim>\<open>adj1\<close> outside and \<^verbatim>\<open>adj2\<close> inside; the
  compound's own neighbour dictionary does not change while they run (a pair with the
  compound itself in it is a pair of neighbours and so has its edge already).
\<close>

fun remove_parents :: "string list \<Rightarrow> graph \<Rightarrow> error + graph" where
  "remove_parents [] g = Inr g"
| "remove_parents (unique_hmdb_id # rest) g =
     (case dict_get (g_adj g) unique_hmdb_id of
        None \<Rightarrow> Inl KeyError
      | Some nbrs \<Rightarrow>
          (case link_pairs (concat (map (\<lambda>adj1. map (\<lambda>adj2. (adj1, adj2)) (dict_keys nbrs))
                                        (dict_keys nbrs))) g of
             Inl e \<Rightarrow> Inl e
           | Inr g1 \<Rightarrow>
               (case remove_node unique_hmdb_id g1 of
                  Inl e \<Rightarrow> Inl e
                | Inr g2 \<Rightarrow> remove_parents rest g2)))"

definition extended_substructure_network ::
  "'b db \<Rightarrow> int \<Rightarrow> graph \<Rightarrow> string list \<Rightarrow> bool \<Rightarrow> error + graph" where
  "extended_substructure_network d min_node_weight substructure_graph unique_hmdb_ids include_parents =
     (let g1 = fold (\<lambda>unique_hmdb_id g. add_node unique_hmdb_id None g) unique_hmdb_ids substructure_graph;
          g2 = fold (\<lambda>l g. add_edge (fst l) (snd l) None g) (filtered_links d min_node_weight) g1
      in if \<not> include_parents then
           (case remove_parents unique_hmdb_ids g2 of
              Inl e \<Rightarrow> Inl e
            | Inr g3 \<Rightarrow> Inr (remove_selfloop_edges g3))
         else Inr g2)"

text \<open>
  \<^verbatim>\<open>default_substructure_network\<close>: every substructure of a compound is paired with
  the substructures of the compound met before it.
\<close>

fun link_with_earlier :: "string list \<Rightarrow> string list \<Rightarrow> graph \<Rightarrow> error + graph" where
  "link_with_earlier [] nodes g = Inr g"
| "link_with_earlier (s # ss) nodes g =
     (case link_pairs (map (\<lambda>node. (s, node)) nodes) g of
        Inl e \<Rightarrow> Inl e
      | Inr g' \<Rightarrow> link_with_earlier ss (nodes @ [s]) g')"

fun default_substructure_network ::
  "'b db \<Rightarrow> int \<Rightarrow> graph \<Rightarrow> string list \<Rightarrow> error + graph" where
  "default_substructure_network d min_node_weight g [] = Inr g"
| "default_substructure_network d min_node_weight g (unique_hmdb_id # rest) =
     (case link_with_earlier
             (map snd (filter (\<lambda>l. fst l = unique_hmdb_id) (filtered_links d min_node_weight))) [] g of
        Inl e \<Rightarrow> Inl e
      | Inr g' \<Rightarrow> default_substructure_network d min_node_weight g' rest)"

definition generate_substructure_network ::
  "'b db \<Rightarrow> string \<Rightarrow> int \<Rightarrow> bool \<Rightarrow> error + graph" where
  "generate_substructure_network d method min_node_weight remove_isolated =
     (let unique_hmdb_ids = unique_hmdbid d;
          g0 = fold (\<lambda>(s, c) g. add_node s (Some c) g)
                    (filtered_hmdbid_substructures d min_node_weight) empty_graph;
          r = (if method = ''default'' then
                 default_substructure_network d min_node_weight g0 unique_hmdb_ids
               else if method = ''extended'' then
                 extended_substructure_network d min_node_weight g0 unique_hmdb_ids False
               else if method = ''parent_structure_linkage'' then
                 extended_substructure_network d min_node_weight g0 unique_hmdb_ids True
               else Inr g0)
      in case r of
           Inl e \<Rightarrow> Inl e
         | Inr g \<Rightarrow> Inr (if remove_isolated then remove_nodes_from (isolates g) g else g))"

section \<open>The isomorphism catalogue (\<^verbatim>\<open>create_isomorphism_database\<close>)\<close>

text \<open>
  \<^verbatim>\<open>graph_info\<close> is defined in another module; it is a parameter here. It takes the
  batch of mappings and gives, as its first component, a dictionary from the text of a
  valence signature to a list of edge sequences.

  Folding one such dictionary into \<^verbatim>\<open>subgraphs\<close>: a signature that is new takes the
  list as it comes; for a signature that is there, every sequence is appended unless it
  is in the list already.
\<close>

definition append_new :: "'e list list \<Rightarrow> 'e list list \<Rightarrow> 'e list list" where
  "append_new new old = fold (\<lambda>es acc. if es \<notin> set acc then acc @ [es] else acc) new old"





subsection \<open>The prefix tree and \<^verbatim>\<open>paths\<close>\<close>

text \<open>
  The nested dictionary \<^verbatim>\<open>root\<close>. \<open>insert_path\<close> is the chain of
  \<^verbatim>\<open>parent = parent.setdefault(e, {})\<close> over one sequence; \<open>paths\<close> is the generator
  of the class, its results in the order they are yielded.
\<close>

datatype 'e tree = Node "('e \<times> 'e tree) list"

fun insert_path :: "'e list \<Rightarrow> 'e tree \<Rightarrow> 'e tree" where
  "insert_path [] t = t"
| "insert_path (e # es) (Node kids) =
     (case dict_get kids e of
        None \<Rightarrow> Node (kids @ [(e, insert_path es (Node []))])
      | Some s \<Rightarrow> Node (dict_set e (insert_path es s) kids))"

definition build_tree :: "'e list list \<Rightarrow> 'e tree" where
  "build_tree frs = fold insert_path frs (Node [])"

fun paths :: "'e tree \<Rightarrow> 'e list \<Rightarrow> 'e list list" where
  "paths (Node kids) cur =
     (if kids = [] then [cur]
      else concat (map (\<lambda>(n, s). paths s (cur @ [n])) kids))"

section \<open>Notions used in the proofs\<close>

text \<open>
  \<open>lang\<close> is the set of key sequences from the root to the leaves; \<open>uniform n\<close>
  holds of a tree whose leaves are all at depth \<open>n\<close> and whose dictionaries have one
  entry per key.
\<close>

fun lang :: "'e tree \<Rightarrow> 'e list set" where
  "lang (Node kids) =
     (if kids = [] then {[]} else (\<Union>(k, c) \<in> set kids. (#) k ` lang c))"

fun uniform :: "nat \<Rightarrow> 'e tree \<Rightarrow> bool" where
  "uniform 0 t = (t = Node [])"
| "uniform (Suc n) (Node kids) =
     (kids \<noteq> [] \<and> distinct (map fst kids) \<and> (\<forall>(k, c) \<in> set kids. uniform n c))"

text \<open>
  A store for the examples: the substructure of full mass 180.063388 (six carbon, twelve
  hydrogen and six oxygen atoms, no open valence), its row built by \<open>sub_smi_dict\<close>,
  and two compounds.
\<close>

definition ex_lib :: lib where
  "ex_lib = \<lparr>lib_smiles = ''OCC1OC(O)C(O)C(O)C1O'',
              lib_mol = \<lparr>atoms = [], bonds = []\<rparr>,
              lib_bond_types = [], lib_degree_atoms = [], lib_valence = 0,
              lib_atoms_available = 0, lib_dummies = []\<rparr>"

definition ex_els :: "(string \<times> nat) list" where
  "ex_els = [(''C'', 6), (''H'', 12), (''N'', 0), (''O'', 6), (''P'', 0), (''S'', 0), (''*'', 0)]"

definition ex_row :: "nat substructure" where
  "ex_row = sub_smi_dict ''OCC1OC(O)C(O)C(O)C1O'' (180063388 / 1000000) ex_els ex_lib 0"

definition ex_cpd :: "string \<Rightarrow> compound" where
  "ex_cpd i = \<lparr>cpd_hmdbid = i, cpd_exact_mass = 180063388 / 1000000, cpd_formula = ''C6H12O6'',
               cpd_C = 6, cpd_H = 12, cpd_N = 0, cpd_O = 6, cpd_P = 0, cpd_S = 0,
               cpd_smiles = ''OCC1OC(O)C(O)C(O)C1O'', cpd_smiles_rdkit = ''OCC1OC(O)C(O)C(O)C1O'',
               cpd_smiles_rdkit_kek = ''OCC1OC(O)C(O)C(O)C1O''\<rparr>"

definition ex_db :: "nat db" where
  "ex_db = \<lparr>compounds = [ex_cpd ''HMDB0000001'', ex_cpd ''HMDB0000002''],
             substructures = [ex_row],
             hmdbid_substructures = []\<rparr>"


text \<open>
  A toolkit for the examples. Its kekulization fails on a molecule with an aromatic bond
  and changes nothing otherwise, its canonical text is the sequence of the atom symbols,
  it adds no hydrogen, its bond subsets are the single bonds, and it pickles a fragment
  to its valence. The molecules are a chain of two carbon atoms and an oxygen atom, a
  ring of four carbon atoms, and the chain with its first bond aromatic.
\<close>

definition ex_tk :: "nat toolkit" where
  "ex_tk = \<lparr>Kekulize = (\<lambda>m. if 3 / 2 \<in> set (map (\<lambda>b. snd (snd b)) (bonds m)) then None else Some m),
             MolToSmiles = (\<lambda>m. concat (atoms m)),
             AddHs = (\<lambda>m. m),
             FindAllSubgraphs = (\<lambda>m n_min n_max. [map (\<lambda>i. [i]) [0 ..< length (bonds m)]]),
             dumps = lib_valence\<rparr>"


definition ex_ring :: mol where
  "ex_ring = \<lparr>atoms = [''C'', ''C'', ''C'', ''C''],
               bonds = [(0, 1, 1), (1, 2, 1), (2, 3, 1), (3, 0, 1)]\<rparr>"


definition ex_empty_db :: "nat db" where
  "ex_empty_db = \<lparr>compounds = [], substructures = [], hmdbid_substructures = []\<rparr>"

text \<open>
  The bond orders recorded for an atom in \<^verbatim>\<open>bond_types\<close>, and the count kept for a
  key in a dictionary of counts (none for a key that is not there).
\<close>

definition bond_orders_at :: "(nat \<times> rat list) list \<Rightarrow> nat \<Rightarrow> rat list" where
  "bond_orders_at bond_types a = (case dict_get bond_types a of None \<Rightarrow> [] | Some ts \<Rightarrow> ts)"

definition count_at :: "(nat \<times> nat) list \<Rightarrow> nat \<Rightarrow> nat" where
  "count_at d a = (case dict_get d a of None \<Rightarrow> 0 | Some c \<Rightarrow> c)"



text \<open>
  A store for the network examples: the compound \<open>X\<close> linked to the substructures
  \<open>A\<close>, \<open>B\<close> and \<open>C\<close>.
\<close>

definition ex_net_db :: "nat db" where
  "ex_net_db = \<lparr>compounds = [ex_cpd ''X''], substructures = [],
                 hmdbid_substructures = [(''X'', ''A''), (''X'', ''B''), (''X'', ''C'')]\<rparr>"

section \<open>Facts about dictionaries\<close>

lemma dict_get_None: "dict_get d k = None \<longleftrightarrow> k \<notin> fst ` set d"
  by (induction d) (auto split: if_splits)

lemma dict_get_Some: "distinct (map fst d) \<Longrightarrow> dict_get d k = Some v \<longleftrightarrow> (k, v) \<in> set d"
  by (induction d) (auto simp: rev_image_eqI split: if_splits)


lemma dict_set_keys: "dict_get d k = Some s \<Longrightarrow> map fst (dict_set k v d) = map fst d"
  by (induction d) (auto split: if_splits)

lemma dict_set_new: "dict_get d k = None \<Longrightarrow> dict_set k v d = d @ [(k, v)]"
  by (induction d) (auto split: if_splits)

lemma dict_set_set:
  "distinct (map fst d) \<Longrightarrow> dict_get d k = Some s \<Longrightarrow>
     set (dict_set k v d) = insert (k, v) (set d - {(k, s)})"
  by (induction d) (auto split: if_splits simp: rev_image_eqI)

section \<open>The prefix tree lists the sequences it was built from\<close>

lemma paths_lang: "set (paths t cur) = (@) cur ` lang t"
proof (induction t cur rule: paths.induct)
  case (1 kids cur)
  show ?case
  proof (cases "kids = []")
    case True
    then show ?thesis by simp
  next
    case False
    have "set (paths (Node kids) cur) = (\<Union>(n, s) \<in> set kids. set (paths s (cur @ [n])))"
      using False by auto
    also have "\<dots> = (\<Union>(n, s) \<in> set kids. (@) (cur @ [n]) ` lang s)"
      using 1 False by auto
    also have "\<dots> = (@) cur ` (\<Union>(n, s) \<in> set kids. (#) n ` lang s)"
      by (auto simp: image_iff)
    finally show ?thesis using False by simp
  qed
qed

lemma distinct_concat_keyed:
  assumes "distinct (map fst kids)"
    and "\<And>k c. (k, c) \<in> set kids \<Longrightarrow> distinct (f k c)"
    and "\<And>k c w. (k, c) \<in> set kids \<Longrightarrow> w \<in> set (f k c) \<Longrightarrow> g w = k"
  shows "distinct (concat (map (\<lambda>(k, c). f k c) kids))"
  using assms
proof (induction kids)
  case Nil
  then show ?case by simp
next
  case (Cons p kids)
  obtain k c where p: "p = (k, c)" by (cases p)
  have 1: "distinct (f k c)" using Cons.prems(2) p by simp
  have 2: "distinct (concat (map (\<lambda>(k, c). f k c) kids))"
  proof (rule Cons.IH)
    show "distinct (map fst kids)" using Cons.prems(1) by simp
  next
    fix k c assume "(k, c) \<in> set kids"
    then show "distinct (f k c)" using Cons.prems(2) by simp
  next
    fix k c w assume "(k, c) \<in> set kids" "w \<in> set (f k c)"
    then show "g w = k" using Cons.prems(3) [of k c w] by auto
  qed
  have 3: "set (f k c) \<inter> set (concat (map (\<lambda>(k, c). f k c) kids)) = {}"
  proof (rule ccontr)
    assume "set (f k c) \<inter> set (concat (map (\<lambda>(k, c). f k c) kids)) \<noteq> {}"
    then obtain w k' c' where w: "w \<in> set (f k c)" "(k', c') \<in> set kids" "w \<in> set (f k' c')"
      by auto
    have "g w = k" using Cons.prems(3) [of k c w] w p by simp
    moreover have "g w = k'" using Cons.prems(3) [of k' c' w] w by simp
    moreover have "k \<notin> fst ` set kids" using Cons.prems(1) p by simp
    ultimately show False using w(2) by force
  qed
  show ?case using 1 2 3 p by simp
qed

lemma paths_distinct: "uniform n t \<Longrightarrow> distinct (paths t cur)"
proof (induction n t arbitrary: cur rule: uniform.induct)
  case (1 t)
  then show ?case by simp
next
  case (2 n kids)
  have k: "kids \<noteq> []" and d: "distinct (map fst kids)" using 2 by auto
  have "distinct (concat (map (\<lambda>(k, s). paths s (cur @ [k])) kids))"
  proof (rule distinct_concat_keyed [where g = "\<lambda>w. w ! length cur"])
    show "distinct (map fst kids)" by (rule d)
  next
    fix k c assume "(k, c) \<in> set kids"
    then show "distinct (paths c (cur @ [k]))" using 2 by auto
  next
    fix k c w assume "(k, c) \<in> set kids" "w \<in> set (paths c (cur @ [k]))"
    then show "w ! length cur = k" by (auto simp: paths_lang nth_append)
  qed
  then show ?case using k by simp
qed

lemma chain_uniform:
  "uniform (length es) (insert_path es (Node [])) \<and> lang (insert_path es (Node [])) = {es}"
  by (induction es) auto

lemma insert_uniform:
  "uniform n t \<Longrightarrow> length es = n \<Longrightarrow>
     uniform n (insert_path es t) \<and> lang (insert_path es t) = insert es (lang t)"
proof (induction es arbitrary: n t)
  case Nil
  then show ?case by auto
next
  case (Cons e es)
  obtain m where n: "n = Suc m" using Cons.prems by (cases n) auto
  obtain kids where t: "t = Node kids" by (cases t)
  have u: "kids \<noteq> []" "distinct (map fst kids)" "\<And>k c. (k, c) \<in> set kids \<Longrightarrow> uniform m c"
    using Cons.prems n t by auto
  have len: "length es = m" using Cons.prems n by simp
  show ?case
  proof (cases "dict_get kids e")
    case None
    have "uniform m (insert_path es (Node []))" "lang (insert_path es (Node [])) = {es}"
      using chain_uniform [of es] len by auto
    moreover have "e \<notin> fst ` set kids" using None by (simp add: dict_get_None)
    ultimately show ?thesis using None u n t by auto
  next
    case (Some s)
    have s: "(e, s) \<in> set kids" using Some u(2) by (simp add: dict_get_Some)
    have ih: "uniform m (insert_path es s)" "lang (insert_path es s) = insert es (lang s)"
      using Cons.IH [OF u(3) [OF s] len] by auto
    have st: "set (dict_set e (insert_path es s) kids) = insert (e, insert_path es s) (set kids - {(e, s)})"
      using dict_set_set [OF u(2) Some] .
    have ne: "dict_set e (insert_path es s) kids \<noteq> []" using st by auto
    have un: "uniform n (insert_path (e # es) t)"
      using Some u ih st ne n t by (auto simp: dict_set_keys)
    have "lang (insert_path (e # es) t) = insert (e # es) (lang t)"
      using Some u(1) s ih st ne t by auto
    then show ?thesis using un by simp
  qed
qed

lemma fold_insert_uniform:
  "uniform n t \<Longrightarrow> \<forall>fr \<in> set frs. length fr = n \<Longrightarrow>
     uniform n (fold insert_path frs t) \<and> lang (fold insert_path frs t) = set frs \<union> lang t"
proof (induction frs arbitrary: t)
  case Nil
  then show ?case by simp
next
  case (Cons fr frs)
  have 1: "uniform n (insert_path fr t)" "lang (insert_path fr t) = insert fr (lang t)"
    using insert_uniform [of n t fr] Cons.prems by auto
  have "uniform n (fold insert_path frs (insert_path fr t)) \<and>
        lang (fold insert_path frs (insert_path fr t)) = set frs \<union> lang (insert_path fr t)"
    using Cons.IH [OF 1(1)] Cons.prems(2) by simp
  then show ?case using 1(2) by auto
qed

lemma build_tree_uniform:
  assumes "frs \<noteq> []" and "\<forall>fr \<in> set frs. length fr = n"
  shows "uniform n (build_tree frs) \<and> lang (build_tree frs) = set frs"
proof -
  obtain fr rest where frs: "frs = fr # rest" using assms(1) by (cases frs) auto
  have len: "length fr = n" using assms(2) frs by simp
  have 1: "uniform n (insert_path fr (Node []))" "lang (insert_path fr (Node [])) = {fr}"
    using chain_uniform [of fr] len by auto
  show ?thesis
    using fold_insert_uniform [OF 1(1), of rest] assms(2) frs 1(2) by (auto simp: build_tree_def)
qed

text \<open>
  C10. For a non-empty collection of edge sequences of one length, the paths of the tree
  built from them by chained \<^verbatim>\<open>setdefault\<close> are exactly these sequences, each listed
  once. The paths of the empty tree are the one empty path.
\<close>

theorem paths_build_tree:
  "(frs \<noteq> [] \<and> (\<forall>fr \<in> set frs. length fr = n \<and> fr \<noteq> []) \<longrightarrow>
      set (paths (build_tree frs) []) = set frs \<and> distinct (paths (build_tree frs) []))
   \<and> paths (build_tree []) [] = [[]]
   \<and> paths (Node []) [] = [[]]"
proof (intro conjI impI)
  assume a: "frs \<noteq> [] \<and> (\<forall>fr \<in> set frs. length fr = n \<and> fr \<noteq> [])"
  then have u: "uniform n (build_tree frs) \<and> lang (build_tree frs) = set frs"
    using build_tree_uniform [of frs n] by simp
  show "set (paths (build_tree frs) []) = set frs"
    using u by (auto simp: paths_lang)
  show "distinct (paths (build_tree frs) [])"
    using u paths_distinct by blast
next
  show "paths (build_tree []) [] = [[]]"
    by (simp add: build_tree_def)
next
  show "paths (Node []) [] = [[]]"
    by simp
qed

theorem paths_build_tree_witness:
  "set (paths (build_tree [[1, 2], [1, 3], [1, 2::nat]]) []) = {[1, 2], [1, 3]}
   \<and> distinct (paths (build_tree [[1, 2], [1, 3], [1, 2::nat]]) [])"
  using paths_build_tree [of "[[1, 2], [1, 3], [1, 2::nat]]" 2] by auto

section \<open>The queries of the store\<close>

lemma floor_rat_numeral: "\<lfloor>numeral a / numeral b :: rat\<rfloor> = numeral a div numeral b"
  using floor_divide_of_int_eq [of "numeral a" "numeral b", where ?'a = rat] by simp

lemma ex_row_tiers:
  "sub_exact_mass__1 ex_row = 180 \<and> sub_exact_mass__0_1 ex_row = 1801 / 10
   \<and> sub_exact_mass__0_01 ex_row = 18006 / 100 \<and> sub_exact_mass__0_001 ex_row = 180063 / 1000
   \<and> sub_exact_mass__0_0001 ex_row = 1800634 / 10000"
  by (simp add: ex_row_def sub_smi_dict_def py_round_def round_half_even_def Let_def floor_rat_numeral)

lemma ex_row_counts:
  "sub_heavy_atoms ex_row = 12 \<and> sub_valence ex_row = 0
   \<and> ec_of ex_row = (6, 12, 0, 6, 0, 0) \<and> sub_lib ex_row = 0"
  by (simp add: ex_row_def sub_smi_dict_def ex_els_def els_at_def dict_keys_def ex_lib_def ec_of_def)







lemma select_compounds_joined:
  "cpds \<noteq> [] \<Longrightarrow> select_compounds d cpds = Some rows \<Longrightarrow>
     set rows = {r \<in> set (compounds d). cpd_hmdbid r = join '', '' cpds} \<and> distinct rows"
  by (auto simp: select_compounds_def Let_def split: if_splits)

text \<open>
  C4, at a list of two identifiers, both in the store: no row is returned, where one
  identifier returns its row and the empty list returns all rows.
\<close>

theorem select_compounds_two_ids:
  "select_compounds ex_db [''HMDB0000001'', ''HMDB0000002''] = Some []
   \<and> select_compounds ex_db [''HMDB0000001''] = Some [ex_cpd ''HMDB0000001'']
   \<and> select_compounds ex_db [] = Some [ex_cpd ''HMDB0000001'', ex_cpd ''HMDB0000002'']"
  by (simp add: select_compounds_def ex_db_def ex_cpd_def)

text \<open>
  C5, as the claim states it, at the tier of two decimals and the candidate 180.06: the
  row meets the bound on the valence and the heavy-atom set and its mass at the
  requested tier is the candidate, and no mass is returned.
\<close>

theorem select_mass_values_other_tier:
  "select_mass_values ex_db Acc_0_01 [12] 0 (Some [18006 / 100]) = []
   \<and> ex_row \<in> set (substructures ex_db)
   \<and> sub_valence ex_row \<le> 0
   \<and> sub_heavy_atoms ex_row \<in> set [12]
   \<and> exact_mass_at Acc_0_01 ex_row \<in> set [18006 / 100]"
  using ex_row_tiers ex_row_counts
  by (simp add: select_mass_values_def ex_db_def)

text \<open>
  C5, amended. For a non-empty candidate list \<^verbatim>\<open>select_mass_values\<close> returns the
  sorted list, without duplicates, of the masses at the requested tier of the
  substructures with a valence up to the bound, a heavy-atom count of the given set and
  a mass at the integer tier (\<^verbatim>\<open>exact_mass__1\<close>) in the candidate list.
\<close>

theorem select_mass_values_sorted:
  "masses \<noteq> [] \<longrightarrow>
     sorted (select_mass_values d acc heavy_atoms max_valence (Some masses))
     \<and> distinct (select_mass_values d acc heavy_atoms max_valence (Some masses))
     \<and> set (select_mass_values d acc heavy_atoms max_valence (Some masses)) =
         exact_mass_at acc ` {r \<in> set (substructures d).
             sub_valence r \<le> max_valence \<and> sub_heavy_atoms r \<in> set heavy_atoms
             \<and> sub_exact_mass__1 r \<in> set masses}"
  by (auto simp: select_mass_values_def Let_def)

theorem select_mass_values_sorted_witness:
  "sorted (select_mass_values ex_db Acc_0_01 [12] 0 (Some [180]))
   \<and> distinct (select_mass_values ex_db Acc_0_01 [12] 0 (Some [180]))
   \<and> set (select_mass_values ex_db Acc_0_01 [12] 0 (Some [180])) = {18006 / 100}"
proof -
  have "{r \<in> set (substructures ex_db). sub_valence r \<le> 0 \<and> sub_heavy_atoms r \<in> set [12]
           \<and> sub_exact_mass__1 r \<in> set [180]} = {ex_row}"
    using ex_row_tiers ex_row_counts by (auto simp: ex_db_def)
  then show ?thesis
    using select_mass_values_sorted [of "[180]" ex_db Acc_0_01 "[12]" 0] ex_row_tiers
    by simp
qed

section \<open>The rows written by the population\<close>


lemma insert_substructure_rows:
  "set (substructures (insert_substructure r d)) \<subseteq> insert r (set (substructures d))"
  by (auto simp: insert_substructure_def)

lemma insert_hmdbid_substructure_rows [simp]:
  "substructures (insert_hmdbid_substructure l d) = substructures d"
  by (simp add: insert_hmdbid_substructure_def)

lemma insert_compound_rows [simp]:
  "substructures (insert_compound c d) = substructures d"
  by (simp add: insert_compound_def)

lemma add_edge_idxs_rows:
  assumes "add_edge_idxs tk rd edge_idxs d = Inr d'"
    and "r \<in> set (substructures d')" and "r \<notin> set (substructures d)"
  shows "\<exists>l x els. get_substructure tk (snd rd) edge_idxs = Inr (Some l)
           \<and> calculate_exact_mass tk (lib_mol l) = Inr x
           \<and> get_elements tk (lib_mol l) = Inr els
           \<and> r = sub_smi_dict (MolToSmiles tk (lib_mol l)) x els l (dumps tk l)"
proof (cases "get_substructure tk (snd rd) edge_idxs")
  case (Inl e)
  then show ?thesis using assms by (simp add: add_edge_idxs_def)
next
  case (Inr ol)
  show ?thesis
  proof (cases ol)
    case None
    then show ?thesis using assms Inr by (simp add: add_edge_idxs_def)
  next
    case (Some l)
    obtain x where x: "calculate_exact_mass tk (lib_mol l) = Inr x"
      using assms(1) Inr Some by (cases "calculate_exact_mass tk (lib_mol l)") (auto simp: add_edge_idxs_def Let_def)
    obtain els where els: "get_elements tk (lib_mol l) = Inr els"
      using assms(1) Inr Some x by (cases "get_elements tk (lib_mol l)") (auto simp: add_edge_idxs_def Let_def)
    have "d' = insert_hmdbid_substructure (cpd_hmdbid (fst rd), MolToSmiles tk (lib_mol l))
                 (insert_substructure (sub_smi_dict (MolToSmiles tk (lib_mol l)) x els l (dumps tk l)) d)"
      using assms(1) Inr Some x els by (simp add: add_edge_idxs_def Let_def)
    then have "r = sub_smi_dict (MolToSmiles tk (lib_mol l)) x els l (dumps tk l)"
      using assms(2,3) insert_substructure_rows by fastforce
    then show ?thesis using Inr Some x els by simp
  qed
qed




lemma round_half_even_nearest: "\<bar>of_int (round_half_even q) - q\<bar> \<le> 1 / 2"
proof -
  have "of_int \<lfloor>q\<rfloor> \<le> q" "q < of_int \<lfloor>q\<rfloor> + 1" by linarith+
  then show ?thesis
    by (auto simp: round_half_even_def Let_def)
qed

lemma py_round_nearest: "\<bar>py_round x n - x\<bar> \<le> 1 / (2 * 10 ^ n)"
proof -
  have "py_round x n - x = (of_int (round_half_even (x * 10 ^ n)) - x * 10 ^ n) / 10 ^ n"
    by (simp add: py_round_def diff_divide_distrib)
  then have "\<bar>py_round x n - x\<bar> = \<bar>of_int (round_half_even (x * 10 ^ n)) - x * 10 ^ n\<bar> / 10 ^ n"
    by (simp add: abs_divide)
  also have "\<dots> \<le> (1 / 2) / 10 ^ n"
    by (rule divide_right_mono [OF round_half_even_nearest]) simp
  finally show ?thesis by simp
qed




section \<open>Fragments that cannot be kekulized\<close>






section \<open>Heavy atoms and valence of an extracted fragment\<close>

lemma dict_get_dict_set:
  "dict_get (dict_set k v d) a = (if a = k then Some v else dict_get d a)"
  by (induction d) auto

lemma dict_set_keys_set: "set (map fst (dict_set k v d)) = insert k (set (map fst d))"
proof (induction d)
  case Nil
  then show ?case by simp
next
  case (Cons p d)
  obtain k' v' where p: "p = (k', v')" by (cases p)
  show ?case
  proof (cases "k' = k")
    case True
    then show ?thesis using p by simp
  next
    case False
    have "set (map fst (dict_set k v (p # d))) = insert k' (set (map fst (dict_set k v d)))"
      using False p by simp
    also have "\<dots> = insert k' (insert k (set (map fst d)))"
      using Cons.IH by simp
    finally show ?thesis using p by auto
  qed
qed

lemma dict_set_distinct: "distinct (map fst d) \<Longrightarrow> distinct (map fst (dict_set k v d))"
proof (induction d)
  case Nil
  then show ?case by simp
next
  case (Cons p d)
  obtain k' v' where p: "p = (k', v')" by (cases p)
  have "k' \<notin> set (map fst (dict_set k v d))" if "k' \<noteq> k"
    using that Cons.prems p by (simp add: dict_set_keys_set del: set_map)
  then show ?case using Cons p by auto
qed

lemma count_at_incr: "count_at (incr k d) a = count_at d a + (if a = k then 1 else 0)"
  by (auto simp: count_at_def incr_def dict_get_dict_set split: option.splits)

lemma incr_distinct: "distinct (map fst d) \<Longrightarrow> distinct (map fst (incr k d))"
  by (auto simp: incr_def dict_set_distinct split: option.splits)

lemma incr_keys: "set (map fst (incr k d)) = insert k (set (map fst d))"
  by (simp add: incr_def dict_set_keys_set del: set_map split: option.splits)

lemma count_at_empty: "count_at [] a = 0"
  by (simp add: count_at_def)

lemma fold_incr_count: "count_at (fold incr ks d) a = count_at d a + count_list ks a"
  by (induction ks arbitrary: d) (auto simp: count_at_incr)

lemma fold_incr_distinct: "distinct (map fst d) \<Longrightarrow> distinct (map fst (fold incr ks d))"
  by (induction ks arbitrary: d) (auto simp: incr_distinct)

lemma fold_incr_keys: "set (map fst (fold incr ks d)) = set ks \<union> set (map fst d)"
  by (induction ks arbitrary: d) (auto simp: incr_keys simp del: set_map)

lemma sum_values_count_at:
  "distinct (map fst d) \<Longrightarrow> sum_list (map snd d) = sum_list (map (count_at d) (map fst d))"
proof (induction d)
  case Nil
  then show ?case by simp
next
  case (Cons p d)
  obtain k c where p: "p = (k, c)" by (cases p)
  have "count_at (p # d) a = count_at d a" if "a \<in> set (map fst d)" for a
    using that Cons.prems p by (auto simp: count_at_def)
  then have eq: "map (count_at (p # d)) (map fst d) = map (count_at d) (map fst d)"
    by (intro map_cong) auto
  have hk: "count_at (p # d) k = c"
    using p by (simp add: count_at_def)
  have "sum_list (map snd (p # d)) = c + sum_list (map snd d)"
    using p by simp
  also have "\<dots> = c + sum_list (map (count_at d) (map fst d))"
    using Cons by simp
  also have "\<dots> = count_at (p # d) k + sum_list (map (count_at (p # d)) (map fst d))"
    by (simp only: eq hk)
  also have "\<dots> = sum_list (map (count_at (p # d)) (map fst (p # d)))"
    using p by simp
  finally show ?case .
qed

lemma bond_orders_at_empty: "bond_orders_at [] a = []"
  by (simp add: bond_orders_at_def)

lemma bond_orders_at_append_to:
  "length (bond_orders_at (append_to k v d) a) = length (bond_orders_at d a) + (if a = k then 1 else 0)"
  by (auto simp: bond_orders_at_def append_to_def dict_get_dict_set split: option.splits)

lemma fold_append_to_length:
  "length (bond_orders_at (fold (\<lambda>(k, v). append_to k v) kvs d) a)
     = length (bond_orders_at d a) + count_list (map fst kvs) a"
  by (induction kvs arbitrary: d) (auto simp: bond_orders_at_append_to)

lemma fold_skip_incr:
  "fold (\<lambda>n d'. if Q n then d' else incr n d') xs d = fold incr (filter (\<lambda>n. \<not> Q n) xs) d"
  by (induction xs arbitrary: d) auto

lemma fold_fold_incr:
  "fold (\<lambda>i d. if R i then fold incr (g i) d else d) is d
     = fold incr (concat (map g (filter R is))) d"
  by (induction "is" arbitrary: d) auto

lemma count_list_concat: "count_list (concat xss) a = sum_list (map (\<lambda>xs. count_list xs a) xss)"
  by (induction xss) auto

lemma count_list_filter_keep: "P a \<Longrightarrow> count_list (filter P xs) a = count_list xs a"
  by (induction xs) auto

lemma sum_list_swap:
  "sum_list (map (\<lambda>x. sum_list (map (\<lambda>y. (f x y :: nat)) ys)) xs)
     = sum_list (map (\<lambda>y. sum_list (map (\<lambda>x. f x y) xs)) ys)"
proof (induction xs)
  case Nil
  then show ?case by simp
next
  case (Cons x xs)
  then show ?case by (simp add: sum_list_addf)
qed

lemma sum_list_delta:
  "distinct xs \<Longrightarrow> sum_list (map (\<lambda>i. if i = k then (v :: nat) else 0) xs) = (if k \<in> set xs then v else 0)"
  by (induction xs) auto


lemma dummies_of_iff: "i \<in> set (dummies_of m) \<longleftrightarrow> GetSymbol m i = ''*''"
  by (auto simp: dummies_of_def GetSymbol_def)

lemma dummies_of_distinct: "distinct (dummies_of m)"
  by (simp add: dummies_of_def)

lemma degree_atoms_of_fold:
  "degree_atoms_of m =
     fold incr (concat (map (\<lambda>i. filter (\<lambda>n. GetSymbol m n \<noteq> ''*'') (GetNeighbors m i))
                            (dummies_of m))) []"
proof -
  have "filter (\<lambda>i. i \<in> set (dummies_of m)) [0 ..< length (atoms m)] = dummies_of m"
    by (auto simp: dummies_of_def intro: filter_cong)
  then show ?thesis
    unfolding degree_atoms_of_def fold_skip_incr
    by (simp add: fold_fold_incr)
qed

lemma bond_types_fold_gen:
  "fold (\<lambda>(a1, a2, t) d.
           if sy a1 = ''*'' then append_to a2 t d
           else if sy a2 = ''*'' then append_to a1 t d
           else d) bs d
   = fold (\<lambda>(k, v). append_to k v)
       (concat (map (\<lambda>(a1, a2, t). if sy a1 = ''*'' then [(a2, t)]
                                     else if sy a2 = ''*'' then [(a1, t)] else []) bs)) d"
  by (induction bs arbitrary: d) auto

lemma bond_types_of_fold:
  "bond_types_of m =
     fold (\<lambda>(k, v). append_to k v)
       (concat (map (\<lambda>(a1, a2, t). if GetSymbol m a1 = ''*'' then [(a2, t)]
                                     else if GetSymbol m a2 = ''*'' then [(a1, t)] else [])
                    (bonds m))) []"
  unfolding bond_types_of_def by (rule bond_types_fold_gen)

lemma per_bond_count:
  assumes "GetSymbol m a \<noteq> ''*''"
  shows "sum_list (map (\<lambda>i. count_list (if a1 = i then [a2] else if a2 = i then [a1] else []) a)
                       (dummies_of m))
         = count_list (map fst (if GetSymbol m a1 = ''*'' then [(a2, t)]
                                else if GetSymbol m a2 = ''*'' then [(a1, t)] else [])) a"
proof (cases "GetSymbol m a1 = ''*''")
  case True
  then have ne: "a1 \<noteq> a" using assms by auto
  have "(\<lambda>i. count_list (if a1 = i then [a2] else if a2 = i then [a1] else []) a)
        = (\<lambda>i. if i = a1 then (if a2 = a then 1 else 0) else 0)"
    using ne by (auto simp: fun_eq_iff)
  then show ?thesis
    using True sum_list_delta [OF dummies_of_distinct, of a1 "if a2 = a then 1 else 0" m]
    by (simp add: dummies_of_iff)
next
  case False
  then have n1: "a1 \<notin> set (dummies_of m)" by (simp add: dummies_of_iff)
  have eq: "map (\<lambda>i. count_list (if a1 = i then [a2] else if a2 = i then [a1] else []) a) (dummies_of m)
        = map (\<lambda>i. if i = a2 then (if a1 = a then 1 else 0) else 0) (dummies_of m)"
    using n1 by (intro map_cong) auto
  have "sum_list (map (\<lambda>i. if i = a2 then (if a1 = a then 1 else 0) else 0) (dummies_of m))
        = (if GetSymbol m a2 = ''*'' then (if a1 = a then 1 else 0) else (0::nat))"
    using sum_list_delta [OF dummies_of_distinct, of a2 "if a1 = a then 1 else 0" m]
    by (simp add: dummies_of_iff)
  also have "\<dots> = count_list (map fst (if GetSymbol m a1 = ''*'' then [(a2, t)]
                                else if GetSymbol m a2 = ''*'' then [(a1, t)] else [])) a"
    using False by simp
  finally show ?thesis by (simp only: eq)
qed

lemma GetNeighbors_count:
  "count_list (GetNeighbors m i) a
     = sum_list (map (\<lambda>(a1, a2, t). count_list (if a1 = i then [a2] else if a2 = i then [a1] else []) a)
                     (bonds m))"
  by (simp add: GetNeighbors_def count_list_concat comp_def case_prod_unfold)

lemma open_valence_count:
  assumes "GetSymbol m a \<noteq> ''*''"
  shows "count_at (degree_atoms_of m) a = length (bond_orders_at (bond_types_of m) a)"
proof -
  let ?c = "\<lambda>b i. count_list (if fst b = i then [fst (snd b)] else if fst (snd b) = i then [fst b] else []) a"
  let ?h = "\<lambda>(a1, a2, t). if GetSymbol m a1 = ''*'' then [(a2, t)]
                            else if GetSymbol m a2 = ''*'' then [(a1, t)] else []"
  have "count_at (degree_atoms_of m) a
        = sum_list (map (\<lambda>i. count_list (filter (\<lambda>n. GetSymbol m n \<noteq> ''*'') (GetNeighbors m i)) a)
                        (dummies_of m))"
    by (simp add: degree_atoms_of_fold fold_incr_count count_list_concat comp_def count_at_empty)
  also have "\<dots> = sum_list (map (\<lambda>i. count_list (GetNeighbors m i) a) (dummies_of m))"
    using assms by (simp add: count_list_filter_keep)
  also have "\<dots> = sum_list (map (\<lambda>i. sum_list (map (\<lambda>b. ?c b i) (bonds m))) (dummies_of m))"
    by (simp add: GetNeighbors_count case_prod_unfold)
  also have "\<dots> = sum_list (map (\<lambda>b. sum_list (map (\<lambda>i. ?c b i) (dummies_of m))) (bonds m))"
    by (rule sum_list_swap)
  also have "\<dots> = sum_list (map (\<lambda>b. count_list (map fst (?h b)) a) (bonds m))"
  proof (rule arg_cong [where f = sum_list], rule map_cong [OF refl])
    fix b assume "b \<in> set (bonds m)"
    obtain a1 a2 t where b: "b = (a1, a2, t)" by (cases b) auto
    show "sum_list (map (\<lambda>i. ?c b i) (dummies_of m)) = count_list (map fst (?h b)) a"
      unfolding b by (simp only: fst_conv snd_conv prod.case per_bond_count [OF assms])
  qed
  also have "\<dots> = count_list (map fst (concat (map ?h (bonds m)))) a"
    by (simp add: map_concat count_list_concat comp_def)
  also have "\<dots> = length (bond_orders_at (bond_types_of m) a)"
    by (simp add: bond_types_of_fold fold_append_to_length bond_orders_at_empty)
  finally show ?thesis .
qed

lemma degree_atoms_keys:
  assumes "a \<in> set (dict_keys (degree_atoms_of m))"
  shows "GetSymbol m a \<noteq> ''*''"
proof -
  let ?ks = "concat (map (\<lambda>i. filter (\<lambda>n. GetSymbol m n \<noteq> ''*'') (GetNeighbors m i)) (dummies_of m))"
  have "set (map fst (fold incr ?ks [])) = set ?ks"
    using fold_incr_keys [of ?ks "[]"] by simp
  then have "a \<in> set ?ks"
    using assms by (simp only: degree_atoms_of_fold dict_keys_def)
  then show ?thesis by auto
qed

lemma degree_atoms_distinct: "distinct (dict_keys (degree_atoms_of m))"
  by (simp add: degree_atoms_of_fold dict_keys_def fold_incr_distinct del: set_map)

lemma valence_sum:
  "sum_list (dict_values (degree_atoms_of m))
     = sum_list (map (\<lambda>a. length (bond_orders_at (bond_types_of m) a)) (dict_keys (degree_atoms_of m)))"
proof -
  have "sum_list (dict_values (degree_atoms_of m))
        = sum_list (map (count_at (degree_atoms_of m)) (dict_keys (degree_atoms_of m)))"
    using sum_values_count_at [of "degree_atoms_of m"] degree_atoms_distinct [of m]
    by (simp add: dict_values_def dict_keys_def)
  also have "\<dots> = sum_list (map (\<lambda>a. length (bond_orders_at (bond_types_of m) a))
                                (dict_keys (degree_atoms_of m)))"
    by (rule arg_cong [where f = sum_list], rule map_cong [OF refl])
       (simp add: open_valence_count degree_atoms_keys)
  finally show ?thesis .
qed


lemma count_elements_keys:
  "count_elements ss els = Inr els' \<Longrightarrow> map fst els' = map fst els"
proof (induction ss arbitrary: els)
  case Nil
  then show ?case by simp
next
  case (Cons s ss)
  then obtain c where c: "dict_get els s = Some c"
    by (cases "dict_get els s") auto
  have "count_elements ss (dict_set s (c + 1) els) = Inr els'"
    using Cons.prems c by simp
  then have "map fst els' = map fst (dict_set s (c + 1) els)"
    by (rule Cons.IH)
  then show ?case using c by (simp add: dict_set_keys)
qed

lemma get_elements_keys:
  "get_elements tk m = Inr els \<Longrightarrow> dict_keys els = [''C'', ''H'', ''N'', ''O'', ''P'', ''S'', ''*'']"
  using count_elements_keys [of "atoms (AddHs tk m)" elements_init els]
  by (simp add: get_elements_def dict_keys_def elements_init_def)

lemma sub_smi_dict_heavy_atoms:
  assumes "get_elements tk m = Inr els"
  shows "sub_heavy_atoms (sub_smi_dict s x els l p)
         = sub_C (sub_smi_dict s x els l p) + sub_N (sub_smi_dict s x els l p)
           + sub_O (sub_smi_dict s x els l p) + sub_P (sub_smi_dict s x els l p)
           + sub_S (sub_smi_dict s x els l p)"
  using get_elements_keys [OF assms] by (simp add: sub_smi_dict_def)

lemma get_substructure_Some:
  assumes "get_substructure tk m idxs = Inr (Some l)"
  shows "\<exists>mol_out. extract_mol m idxs = Inr mol_out
           \<and> lib_degree_atoms l = degree_atoms_of mol_out
           \<and> lib_bond_types l = bond_types_of mol_out
           \<and> lib_valence l = sum_list (dict_values (degree_atoms_of mol_out))"
proof (cases "extract_mol m idxs")
  case (Inl e)
  then show ?thesis using assms by (simp add: get_substructure_def)
next
  case (Inr mol_out)
  then show ?thesis using assms
    by (cases "Kekulize tk mol_out") (auto simp: get_substructure_def Let_def)
qed

text \<open>
  C7. A row that one step of the population adds to the table has a heavy-atom count
  equal to the sum of its counts of carbon, nitrogen, oxygen, phosphorus and sulfur (the
  elements other than hydrogen and the wildcard), and a valence equal to the sum, over
  the open-attachment atoms (the keys of \<^verbatim>\<open>degree_atoms\<close>), of the number of bond
  orders recorded for the atom in \<^verbatim>\<open>bond_types\<close>; for every atom of the fragment
  that is not a wildcard, its count in \<^verbatim>\<open>degree_atoms\<close> is the number of its
  recorded bond orders.
\<close>

theorem stored_heavy_atoms_and_valence:
  "add_edge_idxs tk rd edge_idxs d = Inr d' \<and> r \<in> set (substructures d') \<and> r \<notin> set (substructures d)
   \<longrightarrow>
     sub_heavy_atoms r = sub_C r + sub_N r + sub_O r + sub_P r + sub_S r
     \<and> (\<exists>l mol_out.
           get_substructure tk (snd rd) edge_idxs = Inr (Some l)
           \<and> extract_mol (snd rd) edge_idxs = Inr mol_out
           \<and> sub_lib r = dumps tk l
           \<and> sub_valence_atoms r = lib_degree_atoms l
           \<and> sub_valence r =
               int (sum_list (map (\<lambda>a. length (bond_orders_at (lib_bond_types l) a))
                                  (dict_keys (lib_degree_atoms l))))
           \<and> (\<forall>a. GetSymbol mol_out a \<noteq> ''*'' \<longrightarrow>
                  count_at (lib_degree_atoms l) a = length (bond_orders_at (lib_bond_types l) a)))"
proof
  assume a: "add_edge_idxs tk rd edge_idxs d = Inr d' \<and> r \<in> set (substructures d')
             \<and> r \<notin> set (substructures d)"
  then obtain l x els where l: "get_substructure tk (snd rd) edge_idxs = Inr (Some l)"
    and els: "get_elements tk (lib_mol l) = Inr els"
    and r: "r = sub_smi_dict (MolToSmiles tk (lib_mol l)) x els l (dumps tk l)"
    using add_edge_idxs_rows [of tk rd edge_idxs d d' r] by blast
  obtain mol_out where mo: "extract_mol (snd rd) edge_idxs = Inr mol_out"
    and da: "lib_degree_atoms l = degree_atoms_of mol_out"
    and bt: "lib_bond_types l = bond_types_of mol_out"
    and va: "lib_valence l = sum_list (dict_values (degree_atoms_of mol_out))"
    using get_substructure_Some [OF l] by blast
  have 1: "sub_heavy_atoms r = sub_C r + sub_N r + sub_O r + sub_P r + sub_S r"
    unfolding r by (rule sub_smi_dict_heavy_atoms [OF els])
  have 2: "sub_lib r = dumps tk l" "sub_valence_atoms r = lib_degree_atoms l"
    "sub_valence r = int (lib_valence l)"
    by (simp_all add: r sub_smi_dict_def)
  have 3: "sub_valence r =
               int (sum_list (map (\<lambda>a. length (bond_orders_at (lib_bond_types l) a))
                                  (dict_keys (lib_degree_atoms l))))"
    using 2(3) va valence_sum [of mol_out] by (simp add: da bt)
  have 4: "\<forall>a. GetSymbol mol_out a \<noteq> ''*'' \<longrightarrow>
                  count_at (lib_degree_atoms l) a = length (bond_orders_at (lib_bond_types l) a)"
    using open_valence_count [of mol_out] by (simp add: da bt)
  show "sub_heavy_atoms r = sub_C r + sub_N r + sub_O r + sub_P r + sub_S r
     \<and> (\<exists>l mol_out.
           get_substructure tk (snd rd) edge_idxs = Inr (Some l)
           \<and> extract_mol (snd rd) edge_idxs = Inr mol_out
           \<and> sub_lib r = dumps tk l
           \<and> sub_valence_atoms r = lib_degree_atoms l
           \<and> sub_valence r =
               int (sum_list (map (\<lambda>a. length (bond_orders_at (lib_bond_types l) a))
                                  (dict_keys (lib_degree_atoms l))))
           \<and> (\<forall>a. GetSymbol mol_out a \<noteq> ''*'' \<longrightarrow>
                  count_at (lib_degree_atoms l) a = length (bond_orders_at (lib_bond_types l) a)))"
    using 1 l mo 2(1,2) 3 4 by (intro conjI exI [of _ l] exI [of _ mol_out]) 
qed

theorem stored_heavy_atoms_and_valence_witness:
  "\<exists>d' r. add_edge_idxs ex_tk (ex_cpd ''HMDB0000001'', ex_ring) [0] ex_empty_db = Inr d'
       \<and> r \<in> set (substructures d') \<and> r \<notin> set (substructures ex_empty_db)
       \<and> sub_valence r = 2 \<and> sub_heavy_atoms r = 2
       \<and> sub_heavy_atoms r = sub_C r + sub_N r + sub_O r + sub_P r + sub_S r
       \<and> (\<exists>l. get_substructure ex_tk ex_ring [0] = Inr (Some l)
              \<and> sub_valence r =
                  int (sum_list (map (\<lambda>a. length (bond_orders_at (lib_bond_types l) a))
                                     (dict_keys (lib_degree_atoms l)))))"
proof -
  let ?res = "add_edge_idxs ex_tk (ex_cpd ''HMDB0000001'', ex_ring) [0] ex_empty_db"
  have "\<not> isl ?res \<and> substructures (projr ?res) \<noteq> []
        \<and> sub_valence (hd (substructures (projr ?res))) = 2
        \<and> sub_heavy_atoms (hd (substructures (projr ?res))) = 2"
    by code_simp
  then obtain d' where d': "?res = Inr d'" "substructures d' \<noteq> []"
    "sub_valence (hd (substructures d')) = 2" "sub_heavy_atoms (hd (substructures d')) = 2"
    by (cases ?res) auto
  let ?r = "hd (substructures d')"
  have r: "?r \<in> set (substructures d')" "?r \<notin> set (substructures ex_empty_db)"
    using d'(2) by (simp_all add: ex_empty_db_def)
  have "sub_heavy_atoms ?r = sub_C ?r + sub_N ?r + sub_O ?r + sub_P ?r + sub_S ?r
       \<and> (\<exists>l. get_substructure ex_tk ex_ring [0] = Inr (Some l)
              \<and> sub_valence ?r =
                  int (sum_list (map (\<lambda>a. length (bond_orders_at (lib_bond_types l) a))
                                     (dict_keys (lib_degree_atoms l)))))"
    using stored_heavy_atoms_and_valence
            [of ex_tk "(ex_cpd ''HMDB0000001'', ex_ring)" "[0]" ex_empty_db d' ?r] d'(1) r
    by auto
  then show ?thesis using d' r by blast
qed

section \<open>Folding the batches of mappings\<close>



lemma append_new_set: "set (append_new new old) = set new \<union> set old"
  unfolding append_new_def by (induction new arbitrary: old) auto











section \<open>The network of one compound with three substructures\<close>

text \<open>
  C2, at the store with the compound \<open>X\<close> linked to \<open>A\<close>, \<open>B\<close> and \<open>C\<close>, the
  minimum node weight being 1. The extended network without parents has the nodes
  \<open>A\<close>, \<open>B\<close>, \<open>C\<close>, no node \<open>X\<close>, no self-loop, and the edges \<open>A\<close>--\<open>B\<close>,
  \<open>A\<close>--\<open>C\<close>, \<open>B\<close>--\<open>C\<close> with weight 2 each: the two nested iterations meet every pair
  of neighbours in both orders. The default network of the same store has the same
  edges with weight 1.
\<close>

theorem extended_network_weights:
  "generate_substructure_network ex_net_db ''extended'' 1 False =
     Inr \<lparr>g_node = [(''A'', Some 1), (''B'', Some 1), (''C'', Some 1)],
          g_adj = [(''A'', [(''B'', Some 2), (''C'', Some 2)]),
                   (''B'', [(''A'', Some 2), (''C'', Some 2)]),
                   (''C'', [(''A'', Some 2), (''B'', Some 2)])]\<rparr>
   \<and> generate_substructure_network ex_net_db ''default'' 1 False =
     Inr \<lparr>g_node = [(''A'', Some 1), (''B'', Some 1), (''C'', Some 1)],
          g_adj = [(''A'', [(''B'', Some 1), (''C'', Some 1)]),
                   (''B'', [(''A'', Some 1), (''C'', Some 1)]),
                   (''C'', [(''A'', Some 1), (''B'', Some 1)])]\<rparr>"
  by code_simp


end
